theory Spec2Isabelle
  imports Main "HOL-Library.Word"
begin

section \<open>The alternative types of a variant\<close>

text \<open>
  \<^verbatim>\<open>variant<Types...>\<close> is a class template: its code is written once for every list of
  alternative types and reaches the alternatives only through their special member
  functions, their \<^verbatim>\<open>swap\<close>, \<^verbatim>\<open>operator==\<close> and \<^verbatim>\<open>std::hash\<close>, and through the type
  traits \<^verbatim>\<open>std::is_trivial\<close>, \<^verbatim>\<open>std::is_nothrow_move_constructible\<close> and the
  \<^verbatim>\<open>noexcept\<close> operator. An alternative type is therefore a record of exactly these
  operations over a common universe \<open>'v\<close> of values. An operation that can throw returns
  \<open>Inl\<close> of the exception; a move returns the new object together with the value left
  behind in its source. An operation that throws is taken to leave its operands as they
  were. \<open>storage_associated\<close> says that namespace \<^verbatim>\<open>foonathan::storage\<close> is among the
  namespaces that argument-dependent lookup searches for an argument of the type: the
  type, one of its base classes or one of its template arguments is declared there.
\<close>

datatype exn = Exn nat

record 'v alt =
  type_id :: nat
  is_trivial :: bool
  is_nothrow_move_constructible :: bool
  is_nothrow_copy_constructible :: bool
  is_copy_assignable :: bool
  storage_associated :: bool
  copy_ctor :: "'v \<Rightarrow> exn + 'v"
  move_ctor :: "'v \<Rightarrow> exn + 'v \<times> 'v"
  copy_assign :: "'v \<Rightarrow> 'v \<Rightarrow> exn + 'v"
  move_assign :: "'v \<Rightarrow> 'v \<Rightarrow> exn + 'v \<times> 'v"
  swap_alt :: "'v \<Rightarrow> 'v \<Rightarrow> exn + 'v \<times> 'v"
  equal_alt :: "'v \<Rightarrow> 'v \<Rightarrow> bool"
  hash_alt :: "'v \<Rightarrow> 64 word"

text \<open>
  The argument pack of \<^verbatim>\<open>emplace<T>(var, args...)\<close>: what \<^verbatim>\<open>T(std::forward<Args>(args)...)\<close>
  does, whether that expression is \<^verbatim>\<open>noexcept\<close>, whether the first overload of
  \<^verbatim>\<open>variant::assign\<close> is viable (one argument \<^verbatim>\<open>u\<close> with \<^verbatim>\<open>std::declval<T&>() = u\<close>
  well-formed), and what that assignment does to the held value. \<open>'a\<close> is the state of the
  arguments, which a constructor taking them by rvalue reference may change.
\<close>

record ('v, 'a) ctor_args =
  construct_from :: "'a \<Rightarrow> exn + 'v \<times> 'a"
  construct_noexcept :: bool
  assignable_from :: bool
  assign_from :: "'v \<Rightarrow> 'a \<Rightarrow> exn + 'v \<times> 'a"

section \<open>detail/variant_helper.hpp: index resolution and type queries\<close>

text \<open>
  \<^verbatim>\<open>get_index_t<T, Types...>\<close>: the three partial specialisations, the one for
  \<^verbatim>\<open><T, T, Tail...>\<close> being the more specialised where the head is \<^verbatim>\<open>T\<close>.
\<close>

fun get_index_t :: "'t \<Rightarrow> 't list \<Rightarrow> nat" where
  "get_index_t T [] = 0"
| "get_index_t T (Head # Tail) = (if Head = T then 0 else get_index_t T Tail + 1)"

definition get_index :: "'v alt \<Rightarrow> 'v alt list \<Rightarrow> nat" where
  "get_index T Types = get_index_t (type_id T) (map type_id Types)"

definition trivial_types :: "'v alt list \<Rightarrow> bool" where
  "trivial_types Types = list_all is_trivial Types"

definition nothrow_move_types :: "'v alt list \<Rightarrow> bool" where
  "nothrow_move_types Types = list_all is_nothrow_move_constructible Types"

section \<open>variant.hpp: the variant\<close>

text \<open>
  The raw storage holds at most one object: \<open>None\<close> is a region in which no object has
  been constructed or whose object has been destroyed, \<open>Some (tid, v)\<close> an object of the
  type \<open>tid\<close> with value \<open>v\<close>. \<open>destroyed\<close> is a ghost field: the objects of this storage
  on which \<^verbatim>\<open>variant_destroy_visitor\<close> has run the destructor, in order.
  \<open>m_storage\<close> and \<open>m_which\<close> are the members \<^verbatim>\<open>storage_\<close> and \<^verbatim>\<open>which_\<close>.
\<close>

record 'v variant =
  m_storage :: "(nat \<times> 'v) option"
  m_which :: nat
  destroyed :: "(nat \<times> 'v) list"

text \<open>
  The result of an operation: it returns, or an exception leaves it (both with the state
  reached), or it has no defined behaviour (a failed \<^verbatim>\<open>assert\<close>, a read beyond the
  dispatch table, an access to storage that holds no object of the type asked for), or
  a \<^verbatim>\<open>static_assert\<close> rejects the call.
\<close>

datatype 's outcome = Returns 's | Throws exn 's | Undefined | Ill_formed

fun on_return :: "('s \<Rightarrow> 's) \<Rightarrow> 's outcome \<Rightarrow> 's outcome" where
  "on_return f (Returns s) = Returns (f s)"
| "on_return f (Throws e s) = Throws e s"
| "on_return f Undefined = Undefined"
| "on_return f Ill_formed = Ill_formed"

fun map_outcome :: "('s \<Rightarrow> 't) \<Rightarrow> 's outcome \<Rightarrow> 't outcome" where
  "map_outcome f (Returns s) = Returns (f s)"
| "map_outcome f (Throws e s) = Throws e (f s)"
| "map_outcome f Undefined = Undefined"
| "map_outcome f Ill_formed = Ill_formed"

definition invalid_index :: "'v alt list \<Rightarrow> nat" where
  "invalid_index Types = length Types"

text \<open>\<^verbatim>\<open>explicit operator bool\<close> and \<^verbatim>\<open>which()\<close>.\<close>

definition has_value :: "'v alt list \<Rightarrow> 'v variant \<Rightarrow> bool" where
  "has_value Types var = (m_which var \<noteq> invalid_index Types)"

definition which :: "'v variant \<Rightarrow> nat" where
  "which var = m_which var"

text \<open>
  \<^verbatim>\<open>get<T>(storage)\<close> reinterprets the region as a \<^verbatim>\<open>T\<close>; \<^verbatim>\<open>get<T>(var)\<close> asserts first
  that \<^verbatim>\<open>T\<close> is the type currently stored. \<open>None\<close> is the undefined case.
\<close>

definition get_storage :: "'v alt \<Rightarrow> (nat \<times> 'v) option \<Rightarrow> 'v option" where
  "get_storage T s =
     (case s of None \<Rightarrow> None
      | Some (tid, v) \<Rightarrow> if tid = type_id T then Some v else None)"

definition get_variant :: "'v alt list \<Rightarrow> 'v alt \<Rightarrow> 'v variant \<Rightarrow> 'v option" where
  "get_variant Types T var =
     (if has_value Types var \<and> which var = get_index T Types
      then get_storage T (m_storage var) else None)"

text \<open>
  \<^verbatim>\<open>variant_visit\<close>: nothing for a variant without a value, otherwise the entry
  \<^verbatim>\<open>fncs[variant.which()]\<close> of the table of \<^verbatim>\<open>call_visitor<Types, ...>\<close>, which passes
  \<^verbatim>\<open>get<T>(variant)\<close> to the visitor. The result says which call of the visitor is made.
\<close>

datatype 'v visit_call = Not_called | Called "'v alt" 'v | Faulted

definition call_visitor :: "'v alt list \<Rightarrow> 'v alt \<Rightarrow> 'v variant \<Rightarrow> 'v visit_call" where
  "call_visitor Types T var =
     (case get_variant Types T var of None \<Rightarrow> Faulted | Some v \<Rightarrow> Called T v)"

definition variant_visit :: "'v alt list \<Rightarrow> 'v variant \<Rightarrow> 'v visit_call" where
  "variant_visit Types var =
     (if \<not> has_value Types var then Not_called
      else if which var < length Types then call_visitor Types (Types ! which var) var
      else Faulted)"

text \<open>\<^verbatim>\<open>emplace<T>(storage, args...)\<close> of raw_storage.hpp, once the \<^verbatim>\<open>T\<close> has been built.\<close>

definition emplace_storage :: "'v alt \<Rightarrow> 'v \<Rightarrow> 'v variant \<Rightarrow> 'v variant" where
  "emplace_storage T v var = var\<lparr>m_storage := Some (type_id T, v)\<rparr>"

text \<open>\<^verbatim>\<open>operator=(nullvar_t)\<close>; \<open>None\<close> is the undefined case.\<close>

definition reset :: "'v alt list \<Rightarrow> 'v variant \<Rightarrow> 'v variant option" where
  "reset Types var =
     (if \<not> trivial_types Types \<and> has_value Types var then
        (case variant_visit Types var of
           Called T v \<Rightarrow>
             Some (var\<lparr>m_storage := None, m_which := invalid_index Types,
                       destroyed := destroyed var @ [(type_id T, v)]\<rparr>)
         | Not_called \<Rightarrow> Some (var\<lparr>m_which := invalid_index Types\<rparr>)
         | Faulted \<Rightarrow> None)
      else Some (var\<lparr>m_which := invalid_index Types\<rparr>))"

text \<open>\<^verbatim>\<open>std::hash<variant<Types...>>::operator()\<close>; \<open>hash0\<close> is the value the member
  \<^verbatim>\<open>hash\<close> of the freshly declared \<^verbatim>\<open>variant_hash_visitor\<close> happens to have.\<close>

definition hash_variant :: "'v alt list \<Rightarrow> 64 word \<Rightarrow> 'v variant \<Rightarrow> 64 word option" where
  "hash_variant Types hash0 arg =
     (if \<not> has_value Types arg then Some 19937
      else (case variant_visit Types arg of
              Not_called \<Rightarrow> Some hash0
            | Called T v \<Rightarrow> Some (hash_alt T v)
            | Faulted \<Rightarrow> None))"

text \<open>
  \<^verbatim>\<open>operator==(const variant&, const variant&)\<close>; \<open>equal0\<close> is the value the member
  \<^verbatim>\<open>equal\<close> of the \<^verbatim>\<open>variant_compare_visitor\<close> has before the visit (its constructor
  does not initialise it).
\<close>

definition variant_equal :: "'v alt list \<Rightarrow> bool \<Rightarrow> 'v variant \<Rightarrow> 'v variant \<Rightarrow> bool option" where
  "variant_equal Types equal0 a b =
     (if \<not> has_value Types a \<and> \<not> has_value Types b then Some True
      else if which a = which b then
        (case variant_visit Types b of
           Not_called \<Rightarrow> Some equal0
         | Called T vb \<Rightarrow>
             (case get_variant Types T a of
                None \<Rightarrow> None
              | Some va \<Rightarrow> Some (equal_alt T va vb))
         | Faulted \<Rightarrow> None)
      else Some False)"

subsection \<open>emplace\<close>

text \<open>
  The two overloads of \<^verbatim>\<open>variant::assign\<close>: \<^verbatim>\<open>get<T>(*this) = std::forward<U>(u)\<close> where
  that is well-formed, \<^verbatim>\<open>get<T>(*this) = T(std::forward<Args>(args)...)\<close> otherwise.
\<close>

definition assign :: "'v alt list \<Rightarrow> 'v alt \<Rightarrow> ('v, 'a) ctor_args \<Rightarrow> 'v variant \<Rightarrow> 'a
    \<Rightarrow> ('v variant \<times> 'a) outcome" where
  "assign Types T c var a =
     (case get_variant Types T var of
        None \<Rightarrow> Undefined
      | Some held \<Rightarrow>
          if assignable_from c then
            (case assign_from c held a of
               Inl e \<Rightarrow> Throws e (var, a)
             | Inr (v, a') \<Rightarrow> Returns (emplace_storage T v var, a'))
          else
            (case construct_from c a of
               Inl e \<Rightarrow> Throws e (var, a)
             | Inr (tmp, a') \<Rightarrow>
                 (case move_assign T held tmp of
                    Inl e \<Rightarrow> Throws e (var, a')
                  | Inr (v, r) \<Rightarrow> Returns (emplace_storage T v var, a'))))"

text \<open>
  The two overloads of \<^verbatim>\<open>variant::emplace_impl\<close>, selected by the tag: with
  \<^verbatim>\<open>std::true_type\<close> a temporary is built first, then the old value is destroyed and the
  temporary moved into the storage; with \<^verbatim>\<open>std::false_type\<close> the old value is destroyed
  and the new one built in the storage.
\<close>

definition emplace_impl :: "'v alt list \<Rightarrow> 'v alt \<Rightarrow> ('v, 'a) ctor_args \<Rightarrow> bool \<Rightarrow> 'v variant
    \<Rightarrow> 'a \<Rightarrow> ('v variant \<times> 'a) outcome" where
  "emplace_impl Types T c tag var a =
     (if tag then
        (case construct_from c a of
           Inl e \<Rightarrow> Throws e (var, a)
         | Inr (tmp, a') \<Rightarrow>
             (case reset Types var of
                None \<Rightarrow> Undefined
              | Some var' \<Rightarrow>
                  (case move_ctor T tmp of
                     Inl e \<Rightarrow> Throws e (var', a')
                   | Inr (v, r) \<Rightarrow> Returns (emplace_storage T v var', a'))))
      else
        (case reset Types var of
           None \<Rightarrow> Undefined
         | Some var' \<Rightarrow>
             (case construct_from c a of
                Inl e \<Rightarrow> Throws e (var', a)
              | Inr (v, a') \<Rightarrow> Returns (emplace_storage T v var', a'))))"

text \<open>
  \<^verbatim>\<open>emplace<T>(variant&, args...)\<close>. The \<^verbatim>\<open>static_assert\<close> rejects a type that is not in
  the list; \<^verbatim>\<open>var.which_ = index\<close> is reached only when the branch returned.
\<close>

definition set_which :: "nat \<Rightarrow> 'v variant \<times> 'a \<Rightarrow> 'v variant \<times> 'a" where
  "set_which index s = ((fst s)\<lparr>m_which := index\<rparr>, snd s)"

definition emplace :: "'v alt list \<Rightarrow> 'v alt \<Rightarrow> ('v, 'a) ctor_args \<Rightarrow> 'v variant \<Rightarrow> 'a
    \<Rightarrow> ('v variant \<times> 'a) outcome" where
  "emplace Types T c var a =
     (let index = get_index T Types in
      if index = invalid_index Types then Ill_formed
      else on_return (set_which index)
        (if trivial_types Types \<or> \<not> has_value Types var then
           (case construct_from c a of
              Inl e \<Rightarrow> Throws e (var, a)
            | Inr (v, a') \<Rightarrow> Returns (emplace_storage T v var, a'))
         else if index = m_which var then assign Types T c var a
         else emplace_impl Types T c
                (\<not> construct_noexcept c \<and> is_nothrow_move_constructible T) var a))"

subsection \<open>Constructors\<close>

text \<open>
  The memory of an object under construction: no object lives in the storage, and the
  member \<^verbatim>\<open>which_\<close>, which has no initialiser, holds whatever \<open>w0\<close> the memory held.
\<close>

definition fresh :: "nat \<Rightarrow> 'v variant" where
  "fresh w0 = \<lparr>m_storage = None, m_which = w0, destroyed = []\<rparr>"

text \<open>\<^verbatim>\<open>variant()\<close> and \<^verbatim>\<open>variant(nullvar_t)\<close>: only \<^verbatim>\<open>which_(invalid_index)\<close>.\<close>

definition variant_default :: "'v alt list \<Rightarrow> 'v variant" where
  "variant_default Types = \<lparr>m_storage = None, m_which = invalid_index Types, destroyed = []\<rparr>"

text \<open>
  How a value of an alternative is passed on: as \<^verbatim>\<open>const T&\<close> (an lvalue argument, or the
  value of a \<^verbatim>\<open>const variant&\<close> handed to a visitor) or as \<^verbatim>\<open>T&&\<close> (an rvalue argument,
  or the value of a \<^verbatim>\<open>variant&&\<close>). \<open>forward_ctor\<close> is the \<^verbatim>\<open>T(std::forward<T>(other))\<close>
  that a raw emplace then runs: the new object and the value left in the source.
\<close>

datatype fwd = By_copy | By_move

definition forward_ctor :: "fwd \<Rightarrow> 'v alt \<Rightarrow> 'v \<Rightarrow> exn + 'v \<times> 'v" where
  "forward_ctor m T src =
     (case m of
        By_copy \<Rightarrow> (case copy_ctor T src of Inl e \<Rightarrow> Inl e | Inr v \<Rightarrow> Inr (v, src))
      | By_move \<Rightarrow> move_ctor T src)"

text \<open>
  \<^verbatim>\<open>variant(T &&val)\<close>: the alternative is \<^verbatim>\<open>std::decay<T>::type\<close>, the type of the one
  argument itself, which the \<^verbatim>\<open>static_assert\<close> requires to be in the list; then the raw
  \<^verbatim>\<open>emplace<t>(storage_, std::forward<T>(val))\<close>, which copies or moves \<open>val\<close>, and
  \<^verbatim>\<open>which_ = index\<close>. The result is the new variant and what is left of \<open>val\<close>.
\<close>

definition variant_value :: "'v alt list \<Rightarrow> 'v alt \<Rightarrow> fwd \<Rightarrow> nat \<Rightarrow> 'v
    \<Rightarrow> ('v variant \<times> 'v) outcome" where
  "variant_value Types T m w0 val =
     (let index = get_index T Types in
      if index = invalid_index Types then Ill_formed
      else (case forward_ctor m T val of
              Inl e \<Rightarrow> Throws e (fresh w0, val)
            | Inr (v, r) \<Rightarrow> Returns ((emplace_storage T v (fresh w0))\<lparr>m_which := index\<rparr>, r)))"

text \<open>\<^verbatim>\<open>construct(std::true_type, other)\<close>: trivial types only.\<close>

definition construct_true :: "'v variant \<Rightarrow> 'v variant \<Rightarrow> 'v variant" where
  "construct_true self other = self\<lparr>m_storage := m_storage other, m_which := m_which other\<rparr>"

text \<open>
  \<^verbatim>\<open>construct(std::false_type, other)\<close>: the pair is \<^verbatim>\<open>*this\<close> and \<^verbatim>\<open>other\<close>. The function
  builds the dispatch table of \<^verbatim>\<open>variant_emplace_visitor(storage_)\<close> for every type of
  the list, and the visitor, in namespace \<^verbatim>\<open>detail\<close>, calls \<^verbatim>\<open>emplace<t>(*storage_, other)\<close>
  unqualified: only the \<^verbatim>\<open>emplace\<close> declared in \<^verbatim>\<open>detail\<close> is in scope there, so the raw
  \<^verbatim>\<open>emplace\<close> of raw_storage.hpp is found by argument-dependent lookup alone, through the
  alternative (the storage is a type of namespace \<^verbatim>\<open>std\<close>). The function compiles only
  when that lookup succeeds for every type of the list.
\<close>

definition construct_false :: "'v alt list \<Rightarrow> fwd \<Rightarrow> 'v variant \<Rightarrow> 'v variant
    \<Rightarrow> ('v variant \<times> 'v variant) outcome" where
  "construct_false Types m self other =
     (if \<not> list_all storage_associated Types then Ill_formed
      else if \<not> has_value Types other then
        (case reset Types self of
           None \<Rightarrow> Undefined
         | Some self' \<Rightarrow> Returns (self', other))
      else
        (case variant_visit Types other of
           Not_called \<Rightarrow> Returns (self\<lparr>m_which := m_which other\<rparr>, other)
         | Faulted \<Rightarrow> Undefined
         | Called T v \<Rightarrow>
             (case forward_ctor m T v of
                Inl e \<Rightarrow> Throws e (self, other)
              | Inr (v', r) \<Rightarrow>
                  Returns ((emplace_storage T v' self)\<lparr>m_which := m_which other\<rparr>,
                           emplace_storage T r other))))"

text \<open>
  \<^verbatim>\<open>variant(const variant&)\<close> and \<^verbatim>\<open>variant(variant&&)\<close>: \<^verbatim>\<open>construct(trivial(), other)\<close>
  on the memory of the new object; the tag selects one overload, and only that one is
  instantiated. The copy constructor is the one selected for a \<^verbatim>\<open>const\<close> source (a
  non-\<^verbatim>\<open>const\<close> lvalue selects \<^verbatim>\<open>variant(T &&val)\<close>, whose \<^verbatim>\<open>static_assert\<close> rejects it).
\<close>

definition construct :: "'v alt list \<Rightarrow> fwd \<Rightarrow> 'v variant \<Rightarrow> 'v variant
    \<Rightarrow> ('v variant \<times> 'v variant) outcome" where
  "construct Types m self other =
     (if trivial_types Types then Returns (construct_true self other, other)
      else construct_false Types m self other)"

definition variant_copy :: "'v alt list \<Rightarrow> nat \<Rightarrow> 'v variant \<Rightarrow> ('v variant \<times> 'v variant) outcome" where
  "variant_copy Types w0 other = construct Types By_copy (fresh w0) other"

definition variant_move :: "'v alt list \<Rightarrow> nat \<Rightarrow> 'v variant \<Rightarrow> ('v variant \<times> 'v variant) outcome" where
  "variant_move Types w0 other = construct Types By_move (fresh w0) other"

subsection \<open>Assignment\<close>

text \<open>
  The arguments that \<^verbatim>\<open>variant_emplace_visitor\<close> passes to \<^verbatim>\<open>emplace<t>(*storage_, other)\<close>
  when the storage is a variant: the value of the source, by \<^verbatim>\<open>const T&\<close> or by \<^verbatim>\<open>T&&\<close>.
  For \<^verbatim>\<open>T&&\<close> both overloads of \<^verbatim>\<open>assign\<close> need \<^verbatim>\<open>T& = T&&\<close>, so the call compiles only
  for a type that can be assigned from an rvalue.
\<close>

definition visitor_args :: "fwd \<Rightarrow> 'v alt \<Rightarrow> ('v, 'v) ctor_args" where
  "visitor_args m T =
     (case m of
        By_copy \<Rightarrow>
          \<lparr>construct_from = forward_ctor By_copy T,
           construct_noexcept = is_nothrow_copy_constructible T,
           assignable_from = is_copy_assignable T,
           assign_from = (\<lambda>held src. case copy_assign T held src of
                                        Inl e \<Rightarrow> Inl e | Inr v \<Rightarrow> Inr (v, src))\<rparr>
      | By_move \<Rightarrow>
          \<lparr>construct_from = forward_ctor By_move T,
           construct_noexcept = is_nothrow_move_constructible T,
           assignable_from = True,
           assign_from = move_assign T\<rparr>)"

definition put_back :: "'v alt \<Rightarrow> 'v variant \<Rightarrow> 'v variant \<times> 'v \<Rightarrow> 'v variant \<times> 'v variant" where
  "put_back T other s = (fst s, emplace_storage T (snd s) other)"

text \<open>
  The branch \<^verbatim>\<open>visit(std::move(other), detail::variant_emplace_visitor(*this))\<close>. The
  result is the pair of \<^verbatim>\<open>*this\<close> and \<^verbatim>\<open>other\<close>, two distinct objects here and in
  \<^verbatim>\<open>swap\<close> below: an assignment of a variant to itself is not modelled.
\<close>

definition assign_generic :: "'v alt list \<Rightarrow> fwd \<Rightarrow> 'v variant \<Rightarrow> 'v variant
    \<Rightarrow> ('v variant \<times> 'v variant) outcome" where
  "assign_generic Types m self other =
     (case variant_visit Types other of
        Not_called \<Rightarrow> Returns (self, other)
      | Faulted \<Rightarrow> Undefined
      | Called T v \<Rightarrow> map_outcome (put_back T other) (emplace Types T (visitor_args m T) self v))"

text \<open>\<^verbatim>\<open>operator=(const variant&)\<close> and \<^verbatim>\<open>operator=(variant&&)\<close>.\<close>

definition assign_variant :: "'v alt list \<Rightarrow> fwd \<Rightarrow> 'v variant \<Rightarrow> 'v variant
    \<Rightarrow> ('v variant \<times> 'v variant) outcome" where
  "assign_variant Types m self other =
     (if trivial_types Types then Returns (construct_true self other, other)
      else assign_generic Types m self other)"

subsection \<open>swap\<close>

text \<open>
  \<^verbatim>\<open>std::swap(a, b)\<close> on two variants, as the standard library defines it:
  \<^verbatim>\<open>variant tmp(std::move(a)); a = std::move(b); b = std::move(tmp);\<close>, and the destructor
  of \<^verbatim>\<open>tmp\<close> (which is \<^verbatim>\<open>*this = nullvar\<close>) when the scope is left, also by an exception.
  \<open>w0\<close> is the indeterminate \<^verbatim>\<open>which_\<close> of the memory of \<^verbatim>\<open>tmp\<close>.
\<close>

definition leave_scope :: "'v alt list \<Rightarrow> 'v variant \<Rightarrow> 's outcome \<Rightarrow> 's outcome" where
  "leave_scope Types tmp r = (case reset Types tmp of None \<Rightarrow> Undefined | Some t \<Rightarrow> r)"

definition std_swap :: "'v alt list \<Rightarrow> nat \<Rightarrow> 'v variant \<Rightarrow> 'v variant
    \<Rightarrow> ('v variant \<times> 'v variant) outcome" where
  "std_swap Types w0 a b =
     (case variant_move Types w0 a of
        Undefined \<Rightarrow> Undefined
      | Ill_formed \<Rightarrow> Ill_formed
      | Throws e (tmp, a1) \<Rightarrow> Throws e (a1, b)
      | Returns (tmp, a1) \<Rightarrow>
          (case assign_variant Types By_move a1 b of
             Undefined \<Rightarrow> Undefined
           | Ill_formed \<Rightarrow> Ill_formed
           | Throws e (a2, b1) \<Rightarrow> leave_scope Types tmp (Throws e (a2, b1))
           | Returns (a2, b1) \<Rightarrow>
               (case assign_variant Types By_move b1 tmp of
                  Undefined \<Rightarrow> Undefined
                | Ill_formed \<Rightarrow> Ill_formed
                | Throws e (b2, tmp1) \<Rightarrow> leave_scope Types tmp1 (Throws e (a2, b2))
                | Returns (b2, tmp1) \<Rightarrow> leave_scope Types tmp1 (Returns (a2, b2)))))"

text \<open>
  \<^verbatim>\<open>variant_swap_visitor\<close>, visiting \<^verbatim>\<open>b\<close> with the storage \<^verbatim>\<open>a\<close>:
  \<^verbatim>\<open>swap(get<T>(*storage_), other)\<close>.
\<close>

definition swap_same :: "'v alt list \<Rightarrow> 'v variant \<Rightarrow> 'v variant
    \<Rightarrow> ('v variant \<times> 'v variant) outcome" where
  "swap_same Types a b =
     (case variant_visit Types b of
        Not_called \<Rightarrow> Returns (a, b)
      | Faulted \<Rightarrow> Undefined
      | Called T vb \<Rightarrow>
          (case get_variant Types T a of
             None \<Rightarrow> Undefined
           | Some va \<Rightarrow>
               (case swap_alt T va vb of
                  Inl e \<Rightarrow> Throws e (a, b)
                | Inr (va', vb') \<Rightarrow>
                    Returns (emplace_storage T va' a, emplace_storage T vb' b))))"

text \<open>
  \<^verbatim>\<open>b.construct(std::move(a))\<close>, as \<^verbatim>\<open>swap\<close> writes it: a call of \<^verbatim>\<open>construct\<close> with one
  argument. Both overloads, \<^verbatim>\<open>construct(std::true_type, Variant&&)\<close> and
  \<^verbatim>\<open>construct(std::false_type, Variant&&)\<close>, take a tag and the variant, so overload
  resolution finds no viable function: the call is ill-formed, whatever the variants.
\<close>

definition construct_one_argument :: "'v variant \<Rightarrow> 'v variant
    \<Rightarrow> ('v variant \<times> 'v variant) outcome" where
  "construct_one_argument self other = Ill_formed"

text \<open>
  \<^verbatim>\<open>b.construct(std::move(a)); a = nullvar;\<close> for a target \<open>dst\<close> and a source \<open>src\<close>. The
  result is the pair (source, target).
\<close>

definition move_over :: "'v alt list \<Rightarrow> 'v variant \<Rightarrow> 'v variant
    \<Rightarrow> ('v variant \<times> 'v variant) outcome" where
  "move_over Types src dst =
     (case construct_one_argument dst src of
        Undefined \<Rightarrow> Undefined
      | Ill_formed \<Rightarrow> Ill_formed
      | Throws e (dst', src') \<Rightarrow> Throws e (src', dst')
      | Returns (dst', src') \<Rightarrow>
          (case reset Types src' of
             None \<Rightarrow> Undefined
           | Some src'' \<Rightarrow> Returns (src'', dst')))"

definition swap_pair :: "'a \<times> 'b \<Rightarrow> 'b \<times> 'a" where
  "swap_pair p = (snd p, fst p)"

text \<open>The bytewise branch: \<^verbatim>\<open>std::swap\<close> of the storages and of the tags.\<close>

definition swap_trivial :: "'v variant \<Rightarrow> 'v variant \<Rightarrow> 'v variant \<times> 'v variant" where
  "swap_trivial a b =
     (a\<lparr>m_storage := m_storage b, m_which := m_which b\<rparr>,
      b\<lparr>m_storage := m_storage a, m_which := m_which a\<rparr>)"

fun well_formed :: "'s outcome \<Rightarrow> bool" where
  "well_formed (Returns s) = True"
| "well_formed (Throws e s) = True"
| "well_formed Undefined = True"
| "well_formed Ill_formed = False"

text \<open>
  \<^verbatim>\<open>swap(variant &a, variant &b)\<close>. The branches are chosen by plain \<^verbatim>\<open>if\<close> statements, so
  the whole body is instantiated with the function, and the function is rejected when
  one of the two calls \<^verbatim>\<open>b.construct(std::move(a))\<close> and \<^verbatim>\<open>a.construct(std::move(b))\<close> is,
  whichever branch the two variants would take.
\<close>

definition swap_variant :: "'v alt list \<Rightarrow> nat \<Rightarrow> 'v variant \<Rightarrow> 'v variant
    \<Rightarrow> ('v variant \<times> 'v variant) outcome" where
  "swap_variant Types w0 a b =
     (if well_formed (construct_one_argument b a) then
        (if well_formed (construct_one_argument a b) then
           (if trivial_types Types then Returns (swap_trivial a b)
            else if has_value Types a \<and> has_value Types b then
              (if which a = which b then swap_same Types a b
               else std_swap Types w0 a b)
            else if has_value Types a \<and> \<not> has_value Types b then move_over Types a b
            else if has_value Types b \<and> \<not> has_value Types a then
              map_outcome swap_pair (move_over Types b a)
            else Returns (a, b))
         else Ill_formed)
      else Ill_formed)"

section \<open>The invariant of a variant\<close>

text \<open>
  \<open>holds_object\<close>: the storage holds an object of the alternative at the position
  \<^verbatim>\<open>which_\<close>, and that position is the one \<^verbatim>\<open>get_index\<close> gives for its type.
\<close>

definition holds_object :: "'v alt list \<Rightarrow> 'v variant \<Rightarrow> bool" where
  "holds_object Types var =
     (m_which var < length Types \<and>
      get_index (Types ! m_which var) Types = m_which var \<and>
      (case m_storage var of
         None \<Rightarrow> False
       | Some (tid, v) \<Rightarrow> tid = type_id (Types ! m_which var)))"

text \<open>
  The invariant as the specification words it: the index is at most \<open>N\<close>, it is \<open>N\<close>
  exactly when the storage holds no live object, and below \<open>N\<close> the storage holds an
  object of the alternative at that position.
\<close>

definition spec_invariant :: "'v alt list \<Rightarrow> 'v variant \<Rightarrow> bool" where
  "spec_invariant Types var =
     (which var \<le> length Types \<and>
      (which var = length Types \<longleftrightarrow> m_storage var = None) \<and>
      (if which var < length Types then holds_object Types var else True))"

text \<open>
  The invariant the code keeps: as above, except that for a list of trivial types a
  variant without a value may still have the last object in its storage (no destructor
  is run for trivial types, and the storage is copied bytewise).
\<close>

definition variant_invariant :: "'v alt list \<Rightarrow> 'v variant \<Rightarrow> bool" where
  "variant_invariant Types var =
     (if which var = length Types then trivial_types Types \<or> m_storage var = None
      else holds_object Types var)"

section \<open>Example alternative types\<close>

text \<open>
  Concrete alternatives on which the theorems below are instantiated: \<^verbatim>\<open>int\<close> and
  \<^verbatim>\<open>char\<close> (trivial), \<^verbatim>\<open>std::string\<close> (not trivial, moved-from strings are empty), a
  type \<^verbatim>\<open>guarded\<close> whose constructor from an \<^verbatim>\<open>int\<close> throws for the argument 42 and
  whose move constructor is \<^verbatim>\<open>noexcept\<close>, and a class \<^verbatim>\<open>label\<close> of the library's namespace.
\<close>

datatype val = IntV int | ChrV nat | StrV string

definition val_hash :: "val \<Rightarrow> 64 word" where
  "val_hash v = (case v of IntV i \<Rightarrow> word_of_int i | ChrV c \<Rightarrow> of_nat c | StrV s \<Rightarrow> of_nat (length s))"

definition trivial_alt :: "nat \<Rightarrow> val alt" where
  "trivial_alt tid =
     \<lparr>type_id = tid, is_trivial = True,
      is_nothrow_move_constructible = True, is_nothrow_copy_constructible = True,
      is_copy_assignable = True, storage_associated = False,
      copy_ctor = (\<lambda>src. Inr src),
      move_ctor = (\<lambda>src. Inr (src, src)),
      copy_assign = (\<lambda>held src. Inr src),
      move_assign = (\<lambda>held src. Inr (src, src)),
      swap_alt = (\<lambda>x y. Inr (y, x)),
      equal_alt = (\<lambda>x y. x = y),
      hash_alt = val_hash\<rparr>"

definition int_alt :: "val alt" where
  "int_alt = trivial_alt 0"

definition char_alt :: "val alt" where
  "char_alt = trivial_alt 1"

definition string_alt :: "val alt" where
  "string_alt =
     \<lparr>type_id = 2, is_trivial = False,
      is_nothrow_move_constructible = True, is_nothrow_copy_constructible = False,
      is_copy_assignable = True, storage_associated = False,
      copy_ctor = (\<lambda>src. Inr src),
      move_ctor = (\<lambda>src. Inr (src, StrV [])),
      copy_assign = (\<lambda>held src. Inr src),
      move_assign = (\<lambda>held src. Inr (src, StrV [])),
      swap_alt = (\<lambda>x y. Inr (y, x)),
      equal_alt = (\<lambda>x y. x = y),
      hash_alt = val_hash\<rparr>"

definition guarded_alt :: "val alt" where
  "guarded_alt =
     \<lparr>type_id = 3, is_trivial = False,
      is_nothrow_move_constructible = True, is_nothrow_copy_constructible = True,
      is_copy_assignable = False, storage_associated = False,
      copy_ctor = (\<lambda>src. Inr src),
      move_ctor = (\<lambda>src. Inr (src, src)),
      copy_assign = (\<lambda>held src. Inr src),
      move_assign = (\<lambda>held src. Inr (src, src)),
      swap_alt = (\<lambda>x y. Inr (y, x)),
      equal_alt = (\<lambda>x y. x = y),
      hash_alt = val_hash\<rparr>"

text \<open>
  \<^verbatim>\<open>label\<close>: a class with a \<^verbatim>\<open>std::string\<close> member and the implicit special member
  functions, declared in namespace \<^verbatim>\<open>foonathan::storage\<close>.
\<close>

definition label_alt :: "val alt" where
  "label_alt =
     \<lparr>type_id = 4, is_trivial = False,
      is_nothrow_move_constructible = True, is_nothrow_copy_constructible = False,
      is_copy_assignable = True, storage_associated = True,
      copy_ctor = (\<lambda>src. Inr src),
      move_ctor = (\<lambda>src. Inr (src, StrV [])),
      copy_assign = (\<lambda>held src. Inr src),
      move_assign = (\<lambda>held src. Inr (src, StrV [])),
      swap_alt = (\<lambda>x y. Inr (y, x)),
      equal_alt = (\<lambda>x y. x = y),
      hash_alt = val_hash\<rparr>"

text \<open>\<^verbatim>\<open>guarded(int)\<close>: not \<^verbatim>\<open>noexcept\<close>, and a \<^verbatim>\<open>guarded\<close> cannot be assigned from an \<^verbatim>\<open>int\<close>.\<close>

definition guarded_from_int :: "(val, int) ctor_args" where
  "guarded_from_int =
     \<lparr>construct_from = (\<lambda>n. if n = 42 then Inl (Exn 42) else Inr (IntV n, n)),
      construct_noexcept = False,
      assignable_from = False,
      assign_from = (\<lambda>held n. Inr (held, n))\<rparr>"

text \<open>\<^verbatim>\<open>std::string(const char*)\<close>, and \<^verbatim>\<open>std::string::operator=(const char*)\<close>.\<close>

definition string_from_chars :: "(val, string) ctor_args" where
  "string_from_chars =
     \<lparr>construct_from = (\<lambda>cs. Inr (StrV cs, cs)),
      construct_noexcept = False,
      assignable_from = True,
      assign_from = (\<lambda>held cs. Inr (StrV cs, cs))\<rparr>"

text \<open>\<^verbatim>\<open>int(int)\<close>.\<close>

definition int_from_int :: "(val, int) ctor_args" where
  "int_from_int =
     \<lparr>construct_from = (\<lambda>n. Inr (IntV n, n)),
      construct_noexcept = True,
      assignable_from = True,
      assign_from = (\<lambda>held n. Inr (IntV n, n))\<rparr>"

text \<open>A variant in the state that holds the value \<open>v\<close> of the type \<open>T\<close>, and one without a value.\<close>

definition holding :: "'v alt list \<Rightarrow> 'v alt \<Rightarrow> 'v \<Rightarrow> 'v variant" where
  "holding Types T v =
     \<lparr>m_storage = Some (type_id T, v), m_which = get_index T Types, destroyed = []\<rparr>"

section \<open>Observations\<close>

text \<open>The value in the storage, and the state an operation ends in when it is defined.\<close>

definition held_value :: "'v variant \<Rightarrow> 'v option" where
  "held_value var = map_option snd (m_storage var)"

fun outcome_state :: "'s outcome \<Rightarrow> 's option" where
  "outcome_state (Returns s) = Some s"
| "outcome_state (Throws e s) = Some s"
| "outcome_state Undefined = None"
| "outcome_state Ill_formed = None"

text \<open>
  What an operation leaves behind: \<open>ends_in P Q\<close> holds when the operation returns in a
  state with \<open>P\<close> or an exception leaves it in a state with \<open>Q\<close>; \<open>preserved P\<close> asks
  \<open>P\<close> in both cases. An undefined or rejected operation satisfies neither.
\<close>

fun ends_in :: "('s \<Rightarrow> bool) \<Rightarrow> ('s \<Rightarrow> bool) \<Rightarrow> 's outcome \<Rightarrow> bool" where
  "ends_in P Q (Returns s) = P s"
| "ends_in P Q (Throws e s) = Q s"
| "ends_in P Q Undefined = False"
| "ends_in P Q Ill_formed = False"

fun preserved :: "('s \<Rightarrow> bool) \<Rightarrow> 's outcome \<Rightarrow> bool" where
  "preserved P (Returns s) = P s"
| "preserved P (Throws e s) = P s"
| "preserved P Undefined = False"
| "preserved P Ill_formed = False"

definition first_ok :: "'v alt list \<Rightarrow> 'v variant \<times> 'a \<Rightarrow> bool" where
  "first_ok Types s = variant_invariant Types (fst s)"

definition second_ok :: "'v alt list \<Rightarrow> 'a \<times> 'v variant \<Rightarrow> bool" where
  "second_ok Types s = variant_invariant Types (snd s)"

definition both_ok :: "'v alt list \<Rightarrow> 'v variant \<times> 'v variant \<Rightarrow> bool" where
  "both_ok Types s = (variant_invariant Types (fst s) \<and> variant_invariant Types (snd s))"

text \<open>\<^verbatim>\<open>swap(a, b); swap(a, b);\<close>\<close>

definition swap_twice :: "'v alt list \<Rightarrow> nat \<Rightarrow> nat \<Rightarrow> 'v variant \<Rightarrow> 'v variant
    \<Rightarrow> ('v variant \<times> 'v variant) outcome" where
  "swap_twice Types w0 w1 a b =
     (case swap_variant Types w0 a b of
        Returns (a1, b1) \<Rightarrow> swap_variant Types w1 a1 b1
      | Throws e s \<Rightarrow> Throws e s
      | Undefined \<Rightarrow> Undefined
      | Ill_formed \<Rightarrow> Ill_formed)"

text \<open>An alternative whose copy, move and \<^verbatim>\<open>swap\<close> are those of a trivially copyable type.\<close>

definition trivial_ops :: "'v alt \<Rightarrow> bool" where
  "trivial_ops T =
     ((\<forall>v. copy_ctor T v = Inr v) \<and> (\<forall>v. move_ctor T v = Inr (v, v)) \<and>
      (\<forall>x y. swap_alt T x y = Inr (y, x)))"

section \<open>Index resolution\<close>

lemmas alt_defs = trivial_alt_def int_alt_def char_alt_def string_alt_def guarded_alt_def
  label_alt_def
  guarded_from_int_def string_from_chars_def int_from_int_def val_hash_def

lemmas variant_defs = get_index_def trivial_types_def invalid_index_def has_value_def which_def
  get_storage_def get_variant_def call_visitor_def variant_visit_def emplace_storage_def
  reset_def fresh_def variant_default_def holding_def

lemma get_index_t_le: "get_index_t T Types \<le> length Types"
  by (induction Types) auto

lemma get_index_t_absent: "T \<notin> set Types \<Longrightarrow> get_index_t T Types = length Types"
  by (induction Types) auto

lemma get_index_t_present:
  "T \<in> set Types \<Longrightarrow> get_index_t T Types < length Types \<and> Types ! get_index_t T Types = T"
  by (induction Types) auto

lemma get_index_t_first: "j < get_index_t T Types \<Longrightarrow> Types ! j \<noteq> T"
proof (induction Types arbitrary: j)
  case Nil
  then show ?case by simp
next
  case (Cons Head Tail)
  then show ?case by (cases j) (auto split: if_splits)
qed

lemma get_index_t_lt_iff: "get_index_t T Types < length Types \<longleftrightarrow> T \<in> set Types"
  using get_index_t_absent get_index_t_present by fastforce

lemma get_index_le: "get_index T Types \<le> length Types"
  using get_index_t_le [of "type_id T" "map type_id Types"] by (simp add: get_index_def)

lemma get_index_type:
  assumes "get_index T Types < length Types"
  shows "type_id (Types ! get_index T Types) = type_id T"
proof -
  let ?i = "get_index_t (type_id T) (map type_id Types)"
  from assms have lt: "?i < length (map type_id Types)" by (simp add: get_index_def)
  then have "type_id T \<in> set (map type_id Types)" by (simp only: get_index_t_lt_iff)
  then have "map type_id Types ! ?i = type_id T" by (simp only: get_index_t_present)
  with lt show ?thesis by (simp add: get_index_def)
qed

lemma get_index_same_type:
  "type_id T = type_id U \<Longrightarrow> get_index T Types = get_index U Types"
  by (simp add: get_index_def)

text \<open>
  Claim C10. If \<open>T\<close> occurs in \<open>Types\<close>, \<^verbatim>\<open>get_index<T, Types...>\<close> is a position of the
  list, the type at that position is \<open>T\<close>, and no earlier position has the type \<open>T\<close> (so
  it is the first occurrence, also among duplicates); if \<open>T\<close> does not occur, it is
  \<^verbatim>\<open>invalid_index\<close>, the number of types.
\<close>

theorem get_index_resolution:
  "(type_id T \<in> type_id ` set Types \<longrightarrow>
      get_index T Types < length Types \<and>
      type_id (Types ! get_index T Types) = type_id T \<and>
      (\<forall>j < get_index T Types. type_id (Types ! j) \<noteq> type_id T)) \<and>
   (type_id T \<notin> type_id ` set Types \<longrightarrow> get_index T Types = invalid_index Types)"
proof (intro conjI impI allI)
  assume "type_id T \<in> type_id ` set Types"
  then have mem: "type_id T \<in> set (map type_id Types)" by simp
  then show lt: "get_index T Types < length Types"
    using get_index_t_present [OF mem] by (simp add: get_index_def)
  then show "type_id (Types ! get_index T Types) = type_id T" by (rule get_index_type)
  fix j assume "j < get_index T Types"
  then have j: "j < get_index_t (type_id T) (map type_id Types)" by (simp add: get_index_def)
  with get_index_t_le [of "type_id T" "map type_id Types"] have "j < length Types" by simp
  with get_index_t_first [OF j] show "type_id (Types ! j) \<noteq> type_id T" by simp
next
  assume "type_id T \<notin> type_id ` set Types"
  then have "type_id T \<notin> set (map type_id Types)" by simp
  from get_index_t_absent [OF this] show "get_index T Types = invalid_index Types"
    by (simp add: get_index_def invalid_index_def)
qed

theorem get_index_resolution_witness:
  "type_id string_alt \<in> type_id ` set [int_alt, string_alt, char_alt, string_alt] \<and>
   get_index string_alt [int_alt, string_alt, char_alt, string_alt] = 1 \<and>
   type_id guarded_alt \<notin> type_id ` set [int_alt, string_alt, char_alt, string_alt] \<and>
   get_index guarded_alt [int_alt, string_alt, char_alt, string_alt] = 4"
  using get_index_resolution [of string_alt "[int_alt, string_alt, char_alt, string_alt]"]
    get_index_resolution [of guarded_alt "[int_alt, string_alt, char_alt, string_alt]"]
  by (simp add: get_index_def invalid_index_def alt_defs)

section \<open>Dispatch on a variant that satisfies the invariant\<close>

lemma holds_object_has_value: "holds_object Types var \<Longrightarrow> has_value Types var"
  by (simp add: holds_object_def has_value_def invalid_index_def)

lemma invariant_has_value:
  "variant_invariant Types var \<Longrightarrow> has_value Types var \<Longrightarrow> holds_object Types var"
  by (simp add: variant_invariant_def has_value_def invalid_index_def which_def)

lemma holds_object_storage:
  assumes "holds_object Types var"
  obtains v where "m_storage var = Some (type_id (Types ! m_which var), v)"
  using assms by (auto simp: holds_object_def split: option.splits)

lemma get_variant_holds:
  assumes "holds_object Types var" "m_storage var = Some (tid, v)"
    "type_id T = type_id (Types ! m_which var)"
  shows "get_variant Types T var = Some v"
proof -
  from assms(1) have "has_value Types var" by (rule holds_object_has_value)
  moreover from assms have "get_index T Types = m_which var"
    using get_index_same_type [of T "Types ! m_which var" Types] by (simp add: holds_object_def)
  moreover from assms have "tid = type_id T" by (simp add: holds_object_def)
  ultimately show ?thesis using assms(2) by (simp add: get_variant_def which_def get_storage_def)
qed

lemma variant_visit_holds:
  assumes "holds_object Types var" "m_storage var = Some (tid, v)"
  shows "variant_visit Types var = Called (Types ! m_which var) v"
proof -
  from assms(1) have "has_value Types var" by (rule holds_object_has_value)
  moreover from assms(1) have "m_which var < length Types" by (simp add: holds_object_def)
  moreover have "get_variant Types (Types ! m_which var) var = Some v"
    using assms by (rule get_variant_holds) simp
  ultimately show ?thesis by (simp add: variant_visit_def call_visitor_def which_def)
qed

lemma variant_visit_empty: "\<not> has_value Types var \<Longrightarrow> variant_visit Types var = Not_called"
  by (simp add: variant_visit_def)

section \<open>Hashing\<close>

text \<open>
  Claim C9. The hash of a variant without a value is 19937, whatever the list of types
  (and whatever the visitor's member held); the hash of a variant that holds a value is
  the hash of the held alternative's type applied to the held value.
\<close>

theorem hash_variant_value:
  "(\<not> has_value Types arg \<longrightarrow> hash_variant Types hash0 arg = Some 19937) \<and>
   (holds_object Types arg \<and> held_value arg = Some v \<longrightarrow>
      hash_variant Types hash0 arg = Some (hash_alt (Types ! which arg) v))"
proof (intro conjI impI)
  assume "\<not> has_value Types arg"
  then show "hash_variant Types hash0 arg = Some 19937" by (simp add: hash_variant_def)
next
  assume h: "holds_object Types arg \<and> held_value arg = Some v"
  then obtain tid where "m_storage arg = Some (tid, v)" by (auto simp: held_value_def)
  with h have "variant_visit Types arg = Called (Types ! m_which arg) v"
    by (simp add: variant_visit_holds)
  moreover from h have "has_value Types arg" by (simp add: holds_object_has_value)
  ultimately show "hash_variant Types hash0 arg = Some (hash_alt (Types ! which arg) v)"
    by (simp add: hash_variant_def which_def)
qed

theorem hash_variant_value_witness:
  "\<not> has_value [int_alt, string_alt] (variant_default [int_alt, string_alt]) \<and>
   hash_variant [int_alt, string_alt] 5 (variant_default [int_alt, string_alt]) = Some 19937 \<and>
   holds_object [int_alt, string_alt] (holding [int_alt, string_alt] string_alt (StrV ''abc'')) \<and>
   held_value (holding [int_alt, string_alt] string_alt (StrV ''abc'')) = Some (StrV ''abc'') \<and>
   hash_variant [int_alt, string_alt] 5 (holding [int_alt, string_alt] string_alt (StrV ''abc''))
     = Some 3"
  using hash_variant_value [of "[int_alt, string_alt]" "variant_default [int_alt, string_alt]" 5]
    hash_variant_value [of "[int_alt, string_alt]"
      "holding [int_alt, string_alt] string_alt (StrV ''abc'')" 5 "StrV ''abc''"]
  by (simp add: holds_object_def held_value_def variant_defs alt_defs)

section \<open>Assignment from a variant without a value\<close>

text \<open>
  Claim C3. For a list of types that is not all trivial, copy-assigning or move-assigning
  a source without a value leaves the target as it was, so a target that holds a value
  still holds it: the emplace visitor goes through \<^verbatim>\<open>visit\<close>, which does nothing for
  such a source.
\<close>

theorem assign_from_empty_source:
  "\<not> trivial_types Types \<Longrightarrow> \<not> has_value Types other \<Longrightarrow>
   assign_variant Types m self other = Returns (self, other)"
  by (simp add: assign_variant_def assign_generic_def variant_visit_empty)

theorem assign_from_empty_source_witness:
  "\<not> trivial_types [int_alt, string_alt] \<and>
   \<not> has_value [int_alt, string_alt] (variant_default [int_alt, string_alt]) \<and>
   has_value [int_alt, string_alt] (holding [int_alt, string_alt] string_alt (StrV ''abc'')) \<and>
   assign_variant [int_alt, string_alt] By_copy
     (holding [int_alt, string_alt] string_alt (StrV ''abc'')) (variant_default [int_alt, string_alt])
     = Returns (holding [int_alt, string_alt] string_alt (StrV ''abc''),
                variant_default [int_alt, string_alt]) \<and>
   assign_variant [int_alt, string_alt] By_move
     (holding [int_alt, string_alt] string_alt (StrV ''abc'')) (variant_default [int_alt, string_alt])
     = Returns (holding [int_alt, string_alt] string_alt (StrV ''abc''),
                variant_default [int_alt, string_alt])"
proof -
  have t: "\<not> trivial_types [int_alt, string_alt]" by (simp add: variant_defs alt_defs)
  have e: "\<not> has_value [int_alt, string_alt] (variant_default [int_alt, string_alt])"
    by (simp add: variant_defs)
  have h: "has_value [int_alt, string_alt] (holding [int_alt, string_alt] string_alt (StrV ''abc''))"
    by (simp add: variant_defs alt_defs)
  show ?thesis
    using t e h assign_from_empty_source [OF t e, of By_copy]
      assign_from_empty_source [OF t e, of By_move] by simp
qed

section \<open>emplace\<close>

text \<open>
  Claim C1. The list of types is not all trivial, the variant holds a value, and
  \<^verbatim>\<open>emplace<T>\<close> targets another alternative \<open>T\<close> whose construction from the arguments is
  not \<^verbatim>\<open>noexcept\<close> and whose move constructor is \<^verbatim>\<open>noexcept\<close>. If the construction of \<open>T\<close>
  throws, the exception leaves \<^verbatim>\<open>emplace\<close> with the variant exactly as it was: the same
  tag, the same held value, nothing destroyed.
\<close>

theorem emplace_strong_safety:
  assumes "\<not> trivial_types Types" and "has_value Types var"
    and "get_index T Types \<noteq> invalid_index Types" and "get_index T Types \<noteq> which var"
    and "\<not> construct_noexcept c" and "is_nothrow_move_constructible T"
    and "construct_from c a = Inl e"
  shows "emplace Types T c var a = Throws e (var, a)"
  using assms by (simp add: emplace_def emplace_impl_def which_def)

theorem emplace_strong_safety_witness:
  "\<not> trivial_types [int_alt, string_alt, guarded_alt] \<and>
   has_value [int_alt, string_alt, guarded_alt]
     (holding [int_alt, string_alt, guarded_alt] string_alt (StrV ''hello'')) \<and>
   get_index guarded_alt [int_alt, string_alt, guarded_alt]
     \<noteq> invalid_index [int_alt, string_alt, guarded_alt] \<and>
   get_index guarded_alt [int_alt, string_alt, guarded_alt]
     \<noteq> which (holding [int_alt, string_alt, guarded_alt] string_alt (StrV ''hello'')) \<and>
   \<not> construct_noexcept guarded_from_int \<and>
   is_nothrow_move_constructible guarded_alt \<and>
   construct_from guarded_from_int 42 = Inl (Exn 42) \<and>
   emplace [int_alt, string_alt, guarded_alt] guarded_alt guarded_from_int
     (holding [int_alt, string_alt, guarded_alt] string_alt (StrV ''hello'')) 42
   = Throws (Exn 42) (holding [int_alt, string_alt, guarded_alt] string_alt (StrV ''hello''), 42)"
proof -
  let ?Types = "[int_alt, string_alt, guarded_alt]"
  let ?var = "holding ?Types string_alt (StrV ''hello'')"
  have 1: "\<not> trivial_types ?Types" by (simp add: variant_defs alt_defs)
  have 2: "has_value ?Types ?var" by (simp add: variant_defs alt_defs)
  have 3: "get_index guarded_alt ?Types \<noteq> invalid_index ?Types"
    by (simp add: variant_defs alt_defs)
  have 4: "get_index guarded_alt ?Types \<noteq> which ?var" by (simp add: variant_defs alt_defs)
  have 5: "\<not> construct_noexcept guarded_from_int" by (simp add: alt_defs)
  have 6: "is_nothrow_move_constructible guarded_alt" by (simp add: alt_defs)
  have 7: "construct_from guarded_from_int 42 = Inl (Exn 42)" by (simp add: alt_defs)
  from emplace_strong_safety [OF 1 2 3 4 5 6 7] 1 2 3 4 5 6 7 show ?thesis by simp
qed

text \<open>
  Claim C7. The list of types is not all trivial and the variant holds the alternative
  with the index of \<open>T\<close>. Then \<^verbatim>\<open>emplace<T>\<close> is defined, and whether it returns or an
  exception leaves it, no destructor has run on the storage, the tag is still the index of
  \<open>T\<close> and the storage still holds an object of that alternative. When \<open>T\<close> can be assigned
  from the argument and that assignment returns, the held value is the one the assignment
  gives; otherwise, when the temporary is built and its move assignment returns, the held
  value is the one the move assignment gives.
\<close>

theorem emplace_same_alternative:
  assumes "\<not> trivial_types Types" and "holds_object Types var"
    and "get_index T Types = which var" and "held_value var = Some held"
  shows "(\<exists>var' a'. outcome_state (emplace Types T c var a) = Some (var', a') \<and>
            destroyed var' = destroyed var \<and> which var' = get_index T Types \<and>
            holds_object Types var') \<and>
         (assignable_from c \<longrightarrow>
            (\<forall>v a'. assign_from c held a = Inr (v, a') \<longrightarrow>
               emplace Types T c var a
                 = Returns (var\<lparr>m_storage := Some (type_id T, v)\<rparr>, a'))) \<and>
         (\<not> assignable_from c \<longrightarrow>
            (\<forall>tmp a' v r. construct_from c a = Inr (tmp, a') \<and>
                 move_assign T held tmp = Inr (v, r) \<longrightarrow>
               emplace Types T c var a
                 = Returns (var\<lparr>m_storage := Some (type_id T, v)\<rparr>, a')))"
proof -
  from assms(2) have hv: "has_value Types var" by (rule holds_object_has_value)
  from assms(2,3) have idx: "get_index T Types \<noteq> invalid_index Types"
    by (simp add: holds_object_def which_def invalid_index_def)
  from assms(4) obtain tid where st: "m_storage var = Some (tid, held)"
    by (auto simp: held_value_def)
  from assms(2,3) have ty: "type_id T = type_id (Types ! m_which var)"
    using get_index_type [of T Types] by (simp add: holds_object_def which_def)
  from assms(2) st ty have g: "get_variant Types T var = Some held" by (rule get_variant_holds)
  have em: "emplace Types T c var a
      = on_return (set_which (get_index T Types)) (assign Types T c var a)"
    using assms(1,3) hv idx by (simp add: emplace_def which_def)
  have direct: "emplace Types T c var a
      = Returns (var\<lparr>m_storage := Some (type_id T, v)\<rparr>, a')"
    if "assignable_from c" "assign_from c held a = Inr (v, a')" for v a'
    using that assms(3) by (simp add: em assign_def g set_which_def emplace_storage_def which_def)
  have via_tmp: "emplace Types T c var a
      = Returns (var\<lparr>m_storage := Some (type_id T, v)\<rparr>, a')"
    if "\<not> assignable_from c" "construct_from c a = Inr (tmp, a')"
      "move_assign T held tmp = Inr (v, r)" for tmp a' v r
    using that assms(3) by (simp add: em assign_def g set_which_def emplace_storage_def which_def)
  have ho: "holds_object Types (var\<lparr>m_storage := Some (type_id T, x)\<rparr>)" for x
    using assms(2) ty by (simp add: holds_object_def)
  have frame: "\<exists>var' a'. outcome_state (emplace Types T c var a) = Some (var', a') \<and>
      destroyed var' = destroyed var \<and> which var' = get_index T Types \<and>
      holds_object Types var'"
    using assms(2,3) ho
    by (auto simp: em assign_def g set_which_def emplace_storage_def which_def
        split: sum.splits prod.splits)
  from frame direct via_tmp show ?thesis by blast
qed

theorem emplace_same_alternative_witness:
  "\<not> trivial_types [int_alt, string_alt, guarded_alt] \<and>
   holds_object [int_alt, string_alt, guarded_alt]
     (holding [int_alt, string_alt, guarded_alt] string_alt (StrV ''hello'')) \<and>
   assignable_from string_from_chars \<and>
   emplace [int_alt, string_alt, guarded_alt] string_alt string_from_chars
     (holding [int_alt, string_alt, guarded_alt] string_alt (StrV ''hello'')) ''bye''
   = Returns (\<lparr>m_storage = Some (2, StrV ''bye''), m_which = 1, destroyed = []\<rparr>, ''bye'') \<and>
   holds_object [int_alt, string_alt, guarded_alt]
     (holding [int_alt, string_alt, guarded_alt] guarded_alt (IntV 1)) \<and>
   \<not> assignable_from guarded_from_int \<and>
   construct_from guarded_from_int 7 = Inr (IntV 7, 7) \<and>
   move_assign guarded_alt (IntV 1) (IntV 7) = Inr (IntV 7, IntV 7) \<and>
   emplace [int_alt, string_alt, guarded_alt] guarded_alt guarded_from_int
     (holding [int_alt, string_alt, guarded_alt] guarded_alt (IntV 1)) 7
   = Returns (\<lparr>m_storage = Some (3, IntV 7), m_which = 2, destroyed = []\<rparr>, 7)"
proof -
  let ?Types = "[int_alt, string_alt, guarded_alt]"
  let ?s = "holding ?Types string_alt (StrV ''hello'')"
  let ?g = "holding ?Types guarded_alt (IntV 1)"
  have t: "\<not> trivial_types ?Types" by (simp add: variant_defs alt_defs)
  have s1: "holds_object ?Types ?s" by (simp add: holds_object_def variant_defs alt_defs)
  have s2: "get_index string_alt ?Types = which ?s" by (simp add: variant_defs)
  have s3: "held_value ?s = Some (StrV ''hello'')" by (simp add: held_value_def holding_def)
  have g1: "holds_object ?Types ?g" by (simp add: holds_object_def variant_defs alt_defs)
  have g2: "get_index guarded_alt ?Types = which ?g" by (simp add: variant_defs)
  have g3: "held_value ?g = Some (IntV 1)" by (simp add: held_value_def holding_def)
  show ?thesis
    using t s1 g1 emplace_same_alternative [OF t s1 s2 s3, of string_from_chars "''bye''"]
      emplace_same_alternative [OF t g1 g2 g3, of guarded_from_int 7]
    by (simp add: alt_defs holding_def get_index_def)
qed

section \<open>Equality\<close>

text \<open>
  Claim C5. For two variants over the same list of types, each satisfying the invariant,
  \<^verbatim>\<open>a == b\<close> is defined and is true exactly when neither has a value, or both have one,
  with the same index and held values that the equality of that alternative's type
  accepts. In particular two variants with different indices are not equal. The result
  does not depend on what the visitor's member \<^verbatim>\<open>equal\<close> held before.
\<close>

theorem variant_equal_iff:
  assumes "variant_invariant Types a" and "variant_invariant Types b"
  shows "variant_equal Types equal0 a b =
           Some ((\<not> has_value Types a \<and> \<not> has_value Types b) \<or>
                 (has_value Types a \<and> has_value Types b \<and> which a = which b \<and>
                  (\<exists>va vb. held_value a = Some va \<and> held_value b = Some vb \<and>
                     equal_alt (Types ! which a) va vb)))"
proof (cases "\<not> has_value Types a \<and> \<not> has_value Types b")
  case True
  then have "variant_equal Types equal0 a b = Some True" by (simp add: variant_equal_def)
  with True show ?thesis by simp
next
  case some: False
  show ?thesis
  proof (cases "which a = which b")
    case False
    with some have "variant_equal Types equal0 a b = Some False"
      by (simp add: variant_equal_def)
    with False some show ?thesis by simp
  next
    case True
    with some have ha: "has_value Types a" and hb: "has_value Types b"
      by (auto simp: has_value_def which_def)
    from assms ha hb have oa: "holds_object Types a" and ob: "holds_object Types b"
      by (simp_all add: invariant_has_value)
    from oa obtain va where sa: "m_storage a = Some (type_id (Types ! m_which a), va)"
      by (rule holds_object_storage)
    from ob obtain vb where sb: "m_storage b = Some (type_id (Types ! m_which b), vb)"
      by (rule holds_object_storage)
    from ob sb have vis: "variant_visit Types b = Called (Types ! m_which b) vb"
      by (rule variant_visit_holds)
    from True have "type_id (Types ! m_which b) = type_id (Types ! m_which a)"
      by (simp add: which_def)
    with oa sa have get: "get_variant Types (Types ! m_which b) a = Some va"
      by (rule get_variant_holds)
    from ha True vis get
    have "variant_equal Types equal0 a b = Some (equal_alt (Types ! m_which b) va vb)"
      by (simp add: variant_equal_def)
    with True ha hb sa sb show ?thesis by (simp add: held_value_def which_def)
  qed
qed

theorem variant_equal_iff_witness:
  "variant_invariant [int_alt, string_alt] (holding [int_alt, string_alt] string_alt (StrV ''x'')) \<and>
   variant_invariant [int_alt, string_alt] (holding [int_alt, string_alt] int_alt (IntV 4)) \<and>
   variant_invariant [int_alt, string_alt] (variant_default [int_alt, string_alt]) \<and>
   variant_equal [int_alt, string_alt] False
     (holding [int_alt, string_alt] string_alt (StrV ''x''))
     (holding [int_alt, string_alt] string_alt (StrV ''x'')) = Some True \<and>
   variant_equal [int_alt, string_alt] True
     (holding [int_alt, string_alt] string_alt (StrV ''x''))
     (holding [int_alt, string_alt] int_alt (IntV 4)) = Some False \<and>
   variant_equal [int_alt, string_alt] True
     (holding [int_alt, string_alt] string_alt (StrV ''x''))
     (variant_default [int_alt, string_alt]) = Some False \<and>
   variant_equal [int_alt, string_alt] False
     (variant_default [int_alt, string_alt]) (variant_default [int_alt, string_alt]) = Some True"
proof -
  let ?Types = "[int_alt, string_alt]"
  let ?s = "holding ?Types string_alt (StrV ''x'')"
  let ?i = "holding ?Types int_alt (IntV 4)"
  let ?e = "variant_default ?Types"
  have s: "variant_invariant ?Types ?s"
    by (simp add: variant_invariant_def holds_object_def variant_defs alt_defs)
  have i: "variant_invariant ?Types ?i"
    by (simp add: variant_invariant_def holds_object_def variant_defs alt_defs)
  have e: "variant_invariant ?Types ?e"
    by (simp add: variant_invariant_def holds_object_def variant_defs alt_defs)
  show ?thesis
    using s i e variant_equal_iff [OF s s, of False] variant_equal_iff [OF s i, of True]
      variant_equal_iff [OF s e, of True] variant_equal_iff [OF e e, of False]
    by (auto simp: held_value_def variant_defs alt_defs)
qed

section \<open>The invariant under reset and emplace\<close>

lemma invariant_cong:
  "m_which x = m_which y \<Longrightarrow> m_storage x = m_storage y \<Longrightarrow>
   variant_invariant Types x = variant_invariant Types y"
  by (auto simp: variant_invariant_def holds_object_def which_def split: option.splits)

lemma invariant_empty:
  "m_which x = length Types \<Longrightarrow> trivial_types Types \<or> m_storage x = None \<Longrightarrow>
   variant_invariant Types x"
  by (simp add: variant_invariant_def which_def)

lemma invariant_holds: "holds_object Types x \<Longrightarrow> variant_invariant Types x"
  by (simp add: variant_invariant_def which_def holds_object_def)

lemma invariant_no_value:
  "variant_invariant Types x \<Longrightarrow> \<not> has_value Types x \<Longrightarrow>
   trivial_types Types \<or> m_storage x = None"
  by (simp add: variant_invariant_def which_def has_value_def invalid_index_def)

lemma holds_object_new:
  assumes "get_index T Types \<noteq> invalid_index Types" "m_which x = get_index T Types"
    "m_storage x = Some (type_id T, v)"
  shows "holds_object Types x"
proof -
  from assms(1) have lt: "get_index T Types < length Types"
    using get_index_le [of T Types] by (simp add: invalid_index_def)
  then have ty: "type_id (Types ! get_index T Types) = type_id T" by (rule get_index_type)
  then have "get_index (Types ! get_index T Types) Types = get_index T Types"
    by (rule get_index_same_type)
  with lt ty assms(2,3) show ?thesis by (simp add: holds_object_def)
qed

lemma holds_object_put:
  "holds_object Types var \<Longrightarrow> m_which x = m_which var \<Longrightarrow>
   m_storage x = Some (type_id (Types ! m_which var), v) \<Longrightarrow> holds_object Types x"
  by (simp add: holds_object_def)

lemma reset_no_destroy:
  "trivial_types Types \<or> \<not> has_value Types var \<Longrightarrow>
   reset Types var = Some (var\<lparr>m_which := invalid_index Types\<rparr>)"
  by (auto simp: reset_def)

lemma reset_holds:
  assumes "\<not> trivial_types Types" "holds_object Types var" "m_storage var = Some (tid, v)"
  shows "reset Types var =
    Some (var\<lparr>m_storage := None, m_which := invalid_index Types,
              destroyed := destroyed var @ [(tid, v)]\<rparr>)"
proof -
  from assms(2,3) have "variant_visit Types var = Called (Types ! m_which var) v"
    by (rule variant_visit_holds)
  moreover from assms(2,3) have "tid = type_id (Types ! m_which var)"
    by (simp add: holds_object_def)
  moreover from assms(2) have "has_value Types var" by (rule holds_object_has_value)
  ultimately show ?thesis using assms(1) by (simp add: reset_def)
qed

lemma reset_invariant:
  assumes "variant_invariant Types var"
  obtains x where "reset Types var = Some x" "variant_invariant Types x"
    "m_which x = invalid_index Types" "\<not> trivial_types Types \<Longrightarrow> m_storage x = None"
proof (cases "trivial_types Types \<or> \<not> has_value Types var")
  case True
  let ?x = "var\<lparr>m_which := invalid_index Types\<rparr>"
  from True have r: "reset Types var = Some ?x" by (rule reset_no_destroy)
  from True assms have s: "trivial_types Types \<or> m_storage var = None"
    by (auto dest: invariant_no_value)
  then have "variant_invariant Types ?x"
    by (intro invariant_empty) (simp_all add: invalid_index_def)
  with r s show ?thesis by (intro that [of ?x]) auto
next
  case False
  with assms have ho: "holds_object Types var" by (simp add: invariant_has_value)
  then obtain v where st: "m_storage var = Some (type_id (Types ! m_which var), v)"
    by (rule holds_object_storage)
  let ?x = "var\<lparr>m_storage := None, m_which := invalid_index Types,
              destroyed := destroyed var @ [(type_id (Types ! m_which var), v)]\<rparr>"
  from False ho st have r: "reset Types var = Some ?x" by (simp add: reset_holds)
  have "variant_invariant Types ?x"
    by (intro invariant_empty) (simp_all add: invalid_index_def)
  with r show ?thesis by (intro that [of ?x]) auto
qed

lemma emplace_invariant:
  assumes inv: "variant_invariant Types var"
    and idx: "get_index T Types \<noteq> invalid_index Types"
  shows "preserved (first_ok Types) (emplace Types T c var a)"
proof -
  let ?i = "get_index T Types"
  have new: "variant_invariant Types x"
    if "m_which x = ?i" "m_storage x = Some (type_id T, v)" for x v
    using idx that by (intro invariant_holds holds_object_new)
  show ?thesis
  proof (cases "trivial_types Types \<or> \<not> has_value Types var")
    case True
    then have "emplace Types T c var a = on_return (set_which ?i)
        (case construct_from c a of
           Inl e \<Rightarrow> Throws e (var, a)
         | Inr (v, a') \<Rightarrow> Returns (emplace_storage T v var, a'))"
      using idx by (auto simp: emplace_def)
    then show ?thesis using inv new
      by (auto simp: first_ok_def set_which_def emplace_storage_def split: sum.splits)
  next
    case False
    with inv have ho: "holds_object Types var" by (simp add: invariant_has_value)
    then obtain old where st: "m_storage var = Some (type_id (Types ! m_which var), old)"
      by (rule holds_object_storage)
    show ?thesis
    proof (cases "?i = m_which var")
      case True
      then have ty: "type_id T = type_id (Types ! m_which var)"
        using ho get_index_type [of T Types] by (simp add: holds_object_def)
      with ho st have g: "get_variant Types T var = Some old" by (rule get_variant_holds)
      have em: "emplace Types T c var a = on_return (set_which ?i) (assign Types T c var a)"
        using False True idx by (simp add: emplace_def)
      show ?thesis using inv new True
        by (auto simp: em assign_def g first_ok_def set_which_def emplace_storage_def
            split: sum.splits)
    next
      case diff: False
      from inv obtain x where r: "reset Types var = Some x" and xi: "variant_invariant Types x"
        by (rule reset_invariant)
      have em: "emplace Types T c var a = on_return (set_which ?i)
          (emplace_impl Types T c
             (\<not> construct_noexcept c \<and> is_nothrow_move_constructible T) var a)"
        using False diff idx by (simp add: emplace_def)
      show ?thesis using inv xi new
        by (auto simp: em emplace_impl_def r first_ok_def set_which_def emplace_storage_def
            split: sum.splits)
    qed
  qed
qed

section \<open>The invariant under construction and assignment\<close>

lemma construct_false_holds:
  assumes "list_all storage_associated Types"
    and "holds_object Types other" "m_storage other = Some (tid, v)"
  shows "construct_false Types m self other =
    (case forward_ctor m (Types ! m_which other) v of
       Inl e \<Rightarrow> Throws e (self, other)
     | Inr (v', r) \<Rightarrow>
         Returns (self\<lparr>m_storage := Some (tid, v'), m_which := m_which other\<rparr>,
                  other\<lparr>m_storage := Some (tid, r)\<rparr>))"
proof -
  from assms(2,3) have "variant_visit Types other = Called (Types ! m_which other) v"
    by (rule variant_visit_holds)
  moreover from assms(2) have "has_value Types other" by (rule holds_object_has_value)
  moreover from assms(2,3) have "tid = type_id (Types ! m_which other)"
    by (simp add: holds_object_def)
  ultimately show ?thesis using assms(1)
    by (simp add: construct_false_def emplace_storage_def split: sum.splits)
qed

lemma construct_false_invariant:
  assumes "list_all storage_associated Types"
    and "variant_invariant Types other" "has_value Types other"
  shows "ends_in (both_ok Types) (\<lambda>s. s = (self, other)) (construct_false Types m self other)"
proof -
  from assms(2,3) have ho: "holds_object Types other" by (rule invariant_has_value)
  then obtain v where st: "m_storage other = Some (type_id (Types ! m_which other), v)"
    by (rule holds_object_storage)
  have "holds_object Types x"
    if "m_which x = m_which other" "m_storage x = Some (type_id (Types ! m_which other), w)"
    for x w
    using ho that by (rule holds_object_put)
  then show ?thesis
    by (auto simp: construct_false_holds [OF assms(1) ho st] both_ok_def intro!: invariant_holds
        split: sum.splits)
qed

lemma construct_true_invariant:
  "variant_invariant Types other \<Longrightarrow> variant_invariant Types (construct_true self other)"
  using invariant_cong [of "construct_true self other" other Types]
  by (simp add: construct_true_def)

lemma construct_invariant:
  assumes "variant_invariant Types other"
    and "trivial_types Types \<or> list_all storage_associated Types \<and> has_value Types other"
  shows "ends_in (both_ok Types) (second_ok Types) (construct Types m self other)"
proof (cases "trivial_types Types")
  case True
  with assms(1) show ?thesis
    by (simp add: construct_def both_ok_def construct_true_invariant)
next
  case False
  with assms have "ends_in (both_ok Types) (\<lambda>s. s = (self, other))
      (construct_false Types m self other)"
    by (intro construct_false_invariant) simp_all
  with False assms(1) show ?thesis
    by (cases "construct_false Types m self other") (simp_all add: construct_def second_ok_def)
qed

lemma assign_generic_invariant:
  assumes "variant_invariant Types self" "variant_invariant Types other"
  shows "preserved (both_ok Types) (assign_generic Types m self other)"
proof (cases "has_value Types other")
  case False
  with assms show ?thesis by (simp add: assign_generic_def variant_visit_empty both_ok_def)
next
  case True
  with assms(2) have ho: "holds_object Types other" by (rule invariant_has_value)
  then obtain v where st: "m_storage other = Some (type_id (Types ! m_which other), v)"
    by (rule holds_object_storage)
  let ?T = "Types ! m_which other"
  from ho st have vis: "variant_visit Types other = Called ?T v" by (rule variant_visit_holds)
  from ho have "get_index ?T Types \<noteq> invalid_index Types"
    by (simp add: holds_object_def invalid_index_def)
  with assms(1) have em: "preserved (first_ok Types) (emplace Types ?T (visitor_args m ?T) self v)"
    by (rule emplace_invariant)
  have "holds_object Types (emplace_storage ?T r other)" for r
    using ho by (rule holds_object_put) (simp_all add: emplace_storage_def)
  then have "variant_invariant Types (emplace_storage ?T r other)" for r
    by (rule invariant_holds)
  with em show ?thesis
    by (cases "emplace Types ?T (visitor_args m ?T) self v")
      (simp_all add: assign_generic_def vis put_back_def both_ok_def first_ok_def)
qed

lemma assign_variant_invariant:
  assumes "variant_invariant Types self" "variant_invariant Types other"
  shows "preserved (both_ok Types) (assign_variant Types m self other)"
proof (cases "trivial_types Types")
  case True
  with assms show ?thesis
    by (simp add: assign_variant_def both_ok_def construct_true_invariant)
next
  case False
  with assign_generic_invariant [OF assms] show ?thesis by (simp add: assign_variant_def)
qed

lemma variant_value_invariant:
  assumes "get_index T Types \<noteq> invalid_index Types"
  shows "ends_in (first_ok Types) (\<lambda>s. True) (variant_value Types T m w0 val)"
proof -
  have "variant_invariant Types ((emplace_storage T v (fresh w0))\<lparr>m_which := get_index T Types\<rparr>)"
    for v
    by (rule invariant_holds, rule holds_object_new [OF assms])
      (simp_all add: emplace_storage_def)
  with assms show ?thesis
    by (auto simp: variant_value_def first_ok_def Let_def split: sum.splits)
qed

lemma variant_default_invariant: "variant_invariant Types (variant_default Types)"
  by (rule invariant_empty) (simp_all add: variant_default_def invalid_index_def)

lemma variant_default_spec_invariant: "spec_invariant Types (variant_default Types)"
  by (simp add: spec_invariant_def variant_default_def invalid_index_def which_def)

section \<open>Copy and move construction from a variant without a value\<close>

lemma copy_construct_holding:
  assumes "\<not> trivial_types Types" "list_all storage_associated Types"
    "holds_object Types other" "m_storage other = Some (tid, v)"
    "copy_ctor (Types ! m_which other) v = Inr v'"
  shows "variant_copy Types w0 other =
    Returns (\<lparr>m_storage = Some (tid, v'), m_which = m_which other, destroyed = []\<rparr>, other)"
  using assms
  by (simp add: variant_copy_def construct_def construct_false_holds forward_ctor_def fresh_def)

text \<open>
  Claim C2 on the code. \<^verbatim>\<open>label\<close> is a non-trivial class declared in namespace
  \<^verbatim>\<open>foonathan::storage\<close>, so the copy constructor of \<^verbatim>\<open>variant<label>\<close> compiles. Copy
  construction from a \<^verbatim>\<open>const\<close> source without a value runs \<^verbatim>\<open>*this = nullvar\<close> on the new
  object, whose \<^verbatim>\<open>which_\<close> has not been initialised. When the memory holds 0 there, the
  destroy visitor is dispatched to a storage that holds no object, and when it holds 5,
  beyond the dispatch table; only when it happens to hold \<open>N = 1\<close> is the new variant one
  without a value.
\<close>

theorem copy_construct_from_empty_undefined:
  "\<not> trivial_types [label_alt] \<and>
   list_all storage_associated [label_alt] \<and>
   \<not> has_value [label_alt] (variant_default [label_alt]) \<and>
   variant_copy [label_alt] 0 (variant_default [label_alt]) = Undefined \<and>
   variant_copy [label_alt] 5 (variant_default [label_alt]) = Undefined \<and>
   variant_copy [label_alt] 1 (variant_default [label_alt])
     = Returns (variant_default [label_alt], variant_default [label_alt])"
  by (simp add: variant_copy_def construct_def construct_false_def variant_defs alt_defs)

text \<open>
  Claim C4 on the code. The variant without a value over \<^verbatim>\<open>label\<close> satisfies the invariant
  as the specification words it; move construction from it, with 0 in the memory of the
  new object's \<^verbatim>\<open>which_\<close>, has no defined behaviour, so it does not end in a state in
  which the invariant holds.
\<close>

theorem move_construct_breaks_invariant:
  "\<not> trivial_types [label_alt] \<and>
   list_all storage_associated [label_alt] \<and>
   spec_invariant [label_alt] (variant_default [label_alt]) \<and>
   variant_move [label_alt] 0 (variant_default [label_alt]) = Undefined \<and>
   \<not> ends_in (both_ok [label_alt]) (second_ok [label_alt])
       (variant_move [label_alt] 0 (variant_default [label_alt]))"
  by (simp add: variant_move_def construct_def construct_false_def spec_invariant_def
      variant_defs alt_defs)

section \<open>The bytewise path and the generic path\<close>

text \<open>
  Over a list of trivial types whose copy and move are the bytewise ones, the generic
  branch of an assignment from a source that holds a value gives the same result as the
  bytewise branch.
\<close>

lemma trivial_ops_nth:
  "\<forall>T\<in>set Types. trivial_ops T \<Longrightarrow> holds_object Types var \<Longrightarrow>
   trivial_ops (Types ! m_which var)"
  by (simp add: holds_object_def)

lemma forward_ctor_trivial: "trivial_ops T \<Longrightarrow> forward_ctor m T v = Inr (v, v)"
  by (cases m) (simp_all add: forward_ctor_def trivial_ops_def)

lemma assign_paths_agree:
  assumes tr: "trivial_types Types" and ops: "\<forall>T\<in>set Types. trivial_ops T"
    and inv: "variant_invariant Types other" and hv: "has_value Types other"
  shows "assign_generic Types m self other = Returns (construct_true self other, other)"
proof -
  let ?T = "Types ! m_which other"
  from inv hv have ho: "holds_object Types other" by (rule invariant_has_value)
  then obtain v where st: "m_storage other = Some (type_id ?T, v)"
    by (rule holds_object_storage)
  from ho st have vis: "variant_visit Types other = Called ?T v" by (rule variant_visit_holds)
  from ho have idx: "get_index ?T Types = m_which other"
    "get_index ?T Types \<noteq> invalid_index Types"
    by (simp_all add: holds_object_def invalid_index_def)
  from ops ho have "trivial_ops ?T" by (rule trivial_ops_nth)
  then have "forward_ctor m ?T v = Inr (v, v)" by (rule forward_ctor_trivial)
  then have cf: "construct_from (visitor_args m ?T) v = Inr (v, v)"
    by (cases m) (simp_all add: visitor_args_def)
  from tr idx cf have "emplace Types ?T (visitor_args m ?T) self v
      = Returns (self\<lparr>m_storage := Some (type_id ?T, v), m_which := m_which other\<rparr>, v)"
    by (simp add: emplace_def set_which_def emplace_storage_def Let_def)
  then show ?thesis using st
    by (simp add: assign_generic_def vis put_back_def emplace_storage_def construct_true_def)
qed

text \<open>
  Claim C6 on the code. Over the trivial list \<^verbatim>\<open>int\<close>, copy-assigning a source without
  a value to a target that holds 4: the bytewise branch of \<^verbatim>\<open>operator=\<close> leaves the
  target without a value (tag 1), the generic branch leaves the target holding 4 (tag 0).
\<close>

theorem assignment_paths_differ:
  "trivial_types [int_alt] \<and>
   assign_variant [int_alt] By_copy (holding [int_alt] int_alt (IntV 4)) (variant_default [int_alt])
     = Returns (\<lparr>m_storage = None, m_which = 1, destroyed = []\<rparr>, variant_default [int_alt]) \<and>
   assign_generic [int_alt] By_copy (holding [int_alt] int_alt (IntV 4)) (variant_default [int_alt])
     = Returns (holding [int_alt] int_alt (IntV 4), variant_default [int_alt]) \<and>
   which (holding [int_alt] int_alt (IntV 4)) = 0"
  by (simp add: assign_variant_def assign_generic_def construct_true_def variant_defs alt_defs)

section \<open>swap\<close>

text \<open>
  Claim C8 on the code. \<^verbatim>\<open>swap(a, b)\<close> is ill-formed for every list of types and every
  two variants, in any combination of states, since its body calls \<^verbatim>\<open>construct\<close> with one
  argument; so is \<^verbatim>\<open>swap(a, b); swap(a, b);\<close>, and no call returns the variants to their
  values.
\<close>

theorem swap_ill_formed:
  "swap_variant Types w0 a b = Ill_formed \<and> swap_twice Types w0 w1 a b = Ill_formed"
  by (simp add: swap_variant_def swap_twice_def construct_one_argument_def)

end
